theory Spec2Isabelle
  imports Main "HOL-Library.Finite_Map"
begin

section \<open>CooldownUsable: the cooldown state machine of one actor\<close>

text \<open>
  The module \<^verbatim>\<open>Parser/Core/Modules/CooldownUsable.js\<close> keeps one object,
  \<^verbatim>\<open>_currentCooldowns\<close>, from spell ids to records \<^verbatim>\<open>{start, expectedEnd, charges}\<close>,
  and changes it in \<^verbatim>\<open>startCooldown\<close>, \<^verbatim>\<open>finishCooldown\<close>, \<^verbatim>\<open>refreshCooldown\<close>,
  \<^verbatim>\<open>reduceCooldown\<close> and the two event handlers.

  Modelling decisions.
  \<^item> Timestamps, durations and charge counts are \<open>int\<close>: combat-log times are whole
    milliseconds. A value that may be \<^verbatim>\<open>null\<close> or \<^verbatim>\<open>undefined\<close> is an \<open>int option\<close>.
  \<^item> JavaScript truthiness of such a value is \<open>truthy\<close>: \<^verbatim>\<open>null\<close>, \<^verbatim>\<open>undefined\<close> and
    \<^verbatim>\<open>0\<close> are falsy. \<^verbatim>\<open>a || b\<close> is \<open>js_or\<close>.
  \<^item> \<^verbatim>\<open>_currentCooldowns\<close> is a finite map. \<^verbatim>\<open>Object.keys\<close> lists integer keys in
    ascending order, which is \<open>sorted_list_of_fset\<close> of the domain.
  \<^item> \<^verbatim>\<open>CastEfficiency\<close> (the ability catalog) and \<^verbatim>\<open>owner\<close> are other modules;
    the catalog's two lookups are fields of the record \<open>castEfficiency\<close>, taken as a
    parameter, and \<^verbatim>\<open>owner.currentTimestamp\<close> is the parameter \<open>now\<close>.
  \<^item> \<^verbatim>\<open>owner.triggerEvent(name, spellId)\<close> appends \<open>(name, spellId)\<close> to the field
    \<open>triggered\<close> of the module state, and each \<^verbatim>\<open>console\<close> call appends a line to
    the field \<open>console\<close> (\<^verbatim>\<open>debug\<close> is the constant \<^verbatim>\<open>true\<close>). The text of a console
    line (\<^verbatim>\<open>formatDuration\<close>, \<^verbatim>\<open>spellName\<close>) is left out; its kind, the spell id and
    the numbers computed from the store are kept.
  \<^item> A \<^verbatim>\<open>throw\<close> is the outcome \<open>Throws e s\<close>, with the state \<open>s\<close> at the moment of
    the throw; a normal return is \<open>Returns v s\<close>.
  \<^item> \<^verbatim>\<open>this._currentCooldowns[spellId]\<close> is read as \<open>the (fmlookup \<dots> spell)\<close> only
    where the source has tested \<^verbatim>\<open>isOnCooldown(spellId)\<close> (or the entry itself) on the
    way; the one read without such a test, in the loop of \<^verbatim>\<open>on_event\<close>, is a case
    distinction whose missing-entry branch throws.
\<close>

subsection \<open>Data\<close>

type_synonym spellId = nat

record cooldown =
  start :: int
  expectedEnd :: int
  charges :: int

record castEfficiency =
  getMaxCharges :: "spellId \<Rightarrow> int"
  getExpectedCooldownDuration :: "spellId \<Rightarrow> int option"

datatype console_line =
    Warn_no_cooldown spellId
  | Log_cooldown_started spellId int
  | Log_used_another_charge spellId int
  | Error_cast_while_on_cooldown spellId int "int option" int
  | Log_cooldown_finished spellId

record module =
  currentCooldowns :: "(spellId, cooldown) fmap"
  triggered :: "(string \<times> spellId) list"
  console :: "console_line list"

datatype error =
    Error_finish_not_on_cooldown spellId
  | Error_refresh_not_on_cooldown spellId
  | TypeError

datatype 'a outcome =
    Returns (result: 'a) (state_of: module)
  | Throws error (state_of: module)

record ability =
  guid :: spellId

record event =
  timestamp :: int
  ability :: "ability option"

subsection \<open>JavaScript values\<close>

definition truthy :: "int option \<Rightarrow> bool" where
  "truthy v = (case v of None \<Rightarrow> False | Some n \<Rightarrow> n \<noteq> 0)"

definition js_or :: "int option \<Rightarrow> int option \<Rightarrow> int option" where
  "js_or a b = (if truthy a then a else b)"

subsection \<open>Side channels\<close>

definition triggerEvent :: "string \<Rightarrow> spellId \<Rightarrow> module \<Rightarrow> module" where
  "triggerEvent name spell s = s\<lparr>triggered := triggered s @ [(name, spell)]\<rparr>"

definition console_write :: "console_line \<Rightarrow> module \<Rightarrow> module" where
  "console_write l s = s\<lparr>console := console s @ [l]\<rparr>"

subsection \<open>Queries\<close>

definition isOnCooldown :: "module \<Rightarrow> spellId \<Rightarrow> bool" where
  "isOnCooldown s spell = (fmlookup (currentCooldowns s) spell \<noteq> None)"

definition isAvailable :: "castEfficiency \<Rightarrow> module \<Rightarrow> spellId \<Rightarrow> bool" where
  "isAvailable ce s spell =
     (if isOnCooldown s spell then
        (let maxCharges = getMaxCharges ce spell in
         if maxCharges > charges (the (fmlookup (currentCooldowns s) spell)) then True
         else False)
      else True)"

definition cooldownRemaining :: "int \<Rightarrow> module \<Rightarrow> spellId \<Rightarrow> int option" where
  "cooldownRemaining now s spell =
     (if \<not> isOnCooldown s spell then None
      else Some (expectedEnd (the (fmlookup (currentCooldowns s) spell)) - now))"

subsection \<open>Transitions\<close>

definition refreshCooldown ::
  "castEfficiency \<Rightarrow> int \<Rightarrow> module \<Rightarrow> spellId \<Rightarrow> int option \<Rightarrow> unit outcome" where
  "refreshCooldown ce now s spell overrideDurationMs =
     (if \<not> isOnCooldown s spell then Throws (Error_refresh_not_on_cooldown spell) s
      else
        (let expectedCooldownDuration =
               js_or overrideDurationMs (getExpectedCooldownDuration ce spell) in
         if \<not> truthy expectedCooldownDuration then
           Returns () (console_write (Warn_no_cooldown spell) s)
         else
           (let r = the (fmlookup (currentCooldowns s) spell) in
            Returns ()
              (triggerEvent ''refreshcooldown'' spell
                 (s\<lparr>currentCooldowns :=
                      fmupd spell (r\<lparr>expectedEnd := now + the expectedCooldownDuration\<rparr>)
                        (currentCooldowns s)\<rparr>)))))"

definition finishCooldown ::
  "castEfficiency \<Rightarrow> int \<Rightarrow> module \<Rightarrow> spellId \<Rightarrow> bool \<Rightarrow> unit outcome" where
  "finishCooldown ce now s spell resetAllCharges =
     (if \<not> isOnCooldown s spell then Throws (Error_finish_not_on_cooldown spell) s
      else
        (let r = the (fmlookup (currentCooldowns s) spell) in
         if charges r = 1 \<or> resetAllCharges then
           Returns ()
             (triggerEvent ''finishcooldown'' spell
                (console_write (Log_cooldown_finished spell)
                   (s\<lparr>currentCooldowns := fmdrop spell (currentCooldowns s)\<rparr>)))
         else
           (case refreshCooldown ce now
                   (s\<lparr>currentCooldowns :=
                        fmupd spell (r\<lparr>charges := charges r - 1\<rparr>) (currentCooldowns s)\<rparr>)
                   spell None of
              Throws e s' \<Rightarrow> Throws e s'
            | Returns _ s' \<Rightarrow>
                Returns ()
                  (triggerEvent ''finishcooldown'' spell
                     (console_write (Log_cooldown_finished spell) s')))))"

function startCooldown ::
  "castEfficiency \<Rightarrow> int \<Rightarrow> module \<Rightarrow> spellId \<Rightarrow> int option \<Rightarrow> unit outcome" where
  "startCooldown ce now s spell overrideDurationMs =
     (let expectedCooldownDuration =
            js_or overrideDurationMs (getExpectedCooldownDuration ce spell) in
      if \<not> truthy expectedCooldownDuration then
        Returns () (console_write (Warn_no_cooldown spell) s)
      else if \<not> isOnCooldown s spell then
        Returns ()
          (triggerEvent ''startcooldown'' spell
             (console_write (Log_cooldown_started spell 1)
                (s\<lparr>currentCooldowns :=
                     fmupd spell
                       \<lparr>start = now, expectedEnd = now + the expectedCooldownDuration,
                        charges = 1\<rparr>
                       (currentCooldowns s)\<rparr>)))
      else if isAvailable ce s spell then
        (let r = the (fmlookup (currentCooldowns s) spell) in
         Returns ()
           (triggerEvent ''startcooldowncharge'' spell
              (console_write (Log_used_another_charge spell (charges r + 1))
                 (s\<lparr>currentCooldowns :=
                      fmupd spell (r\<lparr>charges := charges r + 1\<rparr>) (currentCooldowns s)\<rparr>))))
      else
        (let r = the (fmlookup (currentCooldowns s) spell) in
         case finishCooldown ce now
                (console_write
                   (Error_cast_while_on_cooldown spell (now - start r)
                      (cooldownRemaining now s spell) (expectedEnd r - start r)) s)
                spell False of
           Throws e s' \<Rightarrow> Throws e s'
         | Returns _ s' \<Rightarrow> startCooldown ce now s' spell overrideDurationMs))"
  by pat_completeness auto

text \<open>
  The retry in the last branch is the only recursion. A finished charge either removes
  the record or lowers \<open>charges\<close> by one, so \<open>charges - maxCharges\<close> falls with each
  retry and the branch is left once it is negative, or sooner.
\<close>

termination startCooldown
proof (relation "measure (\<lambda>(ce, now, s, spell, ov).
          (case fmlookup (currentCooldowns s) spell of
             None \<Rightarrow> 0
           | Some r \<Rightarrow> nat (charges r - getMaxCharges ce spell + 1)))", goal_cases)
  case 1
  show ?case by simp
next
  case (2 ce now s spell ov d r x s')
  from 2(3) obtain r0 where r0: "fmlookup (currentCooldowns s) spell = Some r0"
    by (auto simp: isOnCooldown_def)
  from 2(4) r0 have le: "getMaxCharges ce spell \<le> charges r0"
    by (auto simp: isAvailable_def isOnCooldown_def split: if_splits)
  from 2(6) r0 have
    "currentCooldowns s' =
       (if charges r0 = 1 then fmdrop spell (currentCooldowns s)
        else fmupd spell
               (r0\<lparr>charges := charges r0 - 1,
                    expectedEnd :=
                      (if truthy (getExpectedCooldownDuration ce spell)
                       then now + the (getExpectedCooldownDuration ce spell)
                       else expectedEnd r0)\<rparr>)
               (currentCooldowns s))"
    by (auto simp: finishCooldown_def refreshCooldown_def isOnCooldown_def Let_def
        triggerEvent_def console_write_def js_or_def truthy_def split: if_splits)
  with r0 le show ?case
    by (auto split: if_splits)
qed

declare startCooldown.simps [simp del]

text \<open>In \<open>reduceCooldown\<close>, \<open>remaining\<close> is the source's local \<^verbatim>\<open>cooldownRemaining\<close>.\<close>

definition reduceCooldown ::
  "castEfficiency \<Rightarrow> int \<Rightarrow> module \<Rightarrow> spellId \<Rightarrow> int \<Rightarrow> int option outcome" where
  "reduceCooldown ce now s spell durationMs =
     (if fmlookup (currentCooldowns s) spell = None then Returns None s
      else
        (let remaining = the (cooldownRemaining now s spell) in
         if remaining < durationMs then
           (case finishCooldown ce now s spell False of
              Throws e s' \<Rightarrow> Throws e s'
            | Returns _ s' \<Rightarrow> Returns (Some remaining) s')
         else
           (let r = the (fmlookup (currentCooldowns s) spell) in
            Returns (Some durationMs)
              (s\<lparr>currentCooldowns :=
                   fmupd spell (r\<lparr>expectedEnd := expectedEnd r - durationMs\<rparr>)
                     (currentCooldowns s)\<rparr>))))"

subsection \<open>Event handlers\<close>

text \<open>
  \<^verbatim>\<open>event.ability.guid\<close> throws a TypeError when the event has no \<^verbatim>\<open>ability\<close>.
\<close>

definition on_byPlayer_cast ::
  "castEfficiency \<Rightarrow> int \<Rightarrow> module \<Rightarrow> event \<Rightarrow> unit outcome" where
  "on_byPlayer_cast ce now s event =
     (case ability event of
        None \<Rightarrow> Throws TypeError s
      | Some a \<Rightarrow> startCooldown ce now s (guid a) None)"

text \<open>
  The body of the \<^verbatim>\<open>forEach\<close> of \<^verbatim>\<open>on_event\<close>, run over the keys that
  \<^verbatim>\<open>Object.keys\<close> returned before the loop began. Reading \<^verbatim>\<open>expectedEnd\<close> of a key
  that is no longer in the store would throw a TypeError. \<open>ts\<close> is the local
  \<^verbatim>\<open>timestamp\<close> of the handler.
\<close>

fun forEach_spellId ::
  "castEfficiency \<Rightarrow> int \<Rightarrow> int \<Rightarrow> spellId list \<Rightarrow> module \<Rightarrow> unit outcome" where
  "forEach_spellId ce now ts [] s = Returns () s"
| "forEach_spellId ce now ts (spell # rest) s =
     (case fmlookup (currentCooldowns s) spell of
        None \<Rightarrow> Throws TypeError s
      | Some activeCooldown \<Rightarrow>
          if ts > expectedEnd activeCooldown then
            (case finishCooldown ce now s spell False of
               Throws e s' \<Rightarrow> Throws e s'
             | Returns _ s' \<Rightarrow> forEach_spellId ce now ts rest s')
          else forEach_spellId ce now ts rest s)"

definition on_event ::
  "castEfficiency \<Rightarrow> int \<Rightarrow> module \<Rightarrow> event option \<Rightarrow> unit outcome" where
  "on_event ce now s event =
     (case event of
        None \<Rightarrow> Returns () s
      | Some ev \<Rightarrow>
          forEach_spellId ce now (timestamp ev)
            (sorted_list_of_fset (fmdom (currentCooldowns s))) s)"

subsection \<open>Sequences of calls\<close>

text \<open>
  A freshly constructed module: \<^verbatim>\<open>_currentCooldowns = {}\<close>, nothing triggered or
  printed yet.
\<close>

definition initial :: module where
  "initial = \<lparr>currentCooldowns = fmempty, triggered = [], console = []\<rparr>"

text \<open>
  The public operations of the module, as a caller may invoke them, each at its own
  value of \<^verbatim>\<open>owner.currentTimestamp\<close>. \<open>perform\<close> keeps the state the call leaves
  behind, whether it returned or threw.
\<close>

datatype operation =
    StartCooldown spellId "int option"
  | FinishCooldown spellId bool
  | RefreshCooldown spellId "int option"
  | ReduceCooldown spellId int
  | On_byPlayer_cast event
  | On_event "event option"

fun perform :: "castEfficiency \<Rightarrow> module \<Rightarrow> int \<times> operation \<Rightarrow> module" where
  "perform ce s (now, StartCooldown spell ov) = state_of (startCooldown ce now s spell ov)"
| "perform ce s (now, FinishCooldown spell b) = state_of (finishCooldown ce now s spell b)"
| "perform ce s (now, RefreshCooldown spell ov) = state_of (refreshCooldown ce now s spell ov)"
| "perform ce s (now, ReduceCooldown spell d) = state_of (reduceCooldown ce now s spell d)"
| "perform ce s (now, On_byPlayer_cast ev) = state_of (on_byPlayer_cast ce now s ev)"
| "perform ce s (now, On_event ev) = state_of (on_event ce now s ev)"

definition run :: "castEfficiency \<Rightarrow> module \<Rightarrow> (int \<times> operation) list \<Rightarrow> module" where
  "run ce s ops = foldl (perform ce) s ops"

text \<open>The spell, if any, that an operation passes to \<^verbatim>\<open>startCooldown\<close> from outside.\<close>

fun started_spell :: "operation \<Rightarrow> spellId option" where
  "started_spell (StartCooldown spell ov) = Some spell"
| "started_spell (On_byPlayer_cast ev) = map_option guid (ability ev)"
| "started_spell _ = None"

text \<open>The store invariant of the data model: every record has between one charge
  and the configured maximum on cooldown.\<close>

definition store_invariant :: "castEfficiency \<Rightarrow> module \<Rightarrow> bool" where
  "store_invariant ce s =
     fmpred (\<lambda>spell r. 1 \<le> charges r \<and> charges r \<le> getMaxCharges ce spell)
       (currentCooldowns s)"

text \<open>\<^verbatim>\<open>startCooldown(spellId)\<close> called \<open>n\<close> times in a row at one timestamp.\<close>

fun startCooldown_times ::
  "nat \<Rightarrow> castEfficiency \<Rightarrow> int \<Rightarrow> module \<Rightarrow> spellId \<Rightarrow> unit outcome" where
  "startCooldown_times 0 ce now s spell = Returns () s"
| "startCooldown_times (Suc n) ce now s spell =
     (case startCooldown_times n ce now s spell of
        Throws e s' \<Rightarrow> Throws e s'
      | Returns _ s' \<Rightarrow> startCooldown ce now s' spell None)"

subsection \<open>Reading a call's effect\<close>

text \<open>
  The spells for which \<^verbatim>\<open>finishcooldown\<close> was triggered, in order, in a list of
  notifications: \<open>finishCooldown\<close> triggers it once, at its end, on every path that
  does not throw.
\<close>

definition finish_calls :: "(string \<times> spellId) list \<Rightarrow> spellId list" where
  "finish_calls tr = map snd (filter (\<lambda>e. fst e = ''finishcooldown'') tr)"

text \<open>
  What \<^verbatim>\<open>finishCooldown(spellId)\<close> leaves of the record \<open>r\<close> of its spell, as the
  lemma \<open>finishCooldown_one_charge\<close> below proves: nothing when one charge was on
  cooldown, else one charge less and the timer that \<^verbatim>\<open>refreshCooldown(spellId)\<close> sets.
\<close>

definition after_finish :: "castEfficiency \<Rightarrow> int \<Rightarrow> spellId \<Rightarrow> cooldown \<Rightarrow> cooldown option" where
  "after_finish ce now spell r =
     (if charges r = 1 then None
      else Some (r\<lparr>charges := charges r - 1,
                   expectedEnd :=
                     (if truthy (getExpectedCooldownDuration ce spell)
                      then now + the (getExpectedCooldownDuration ce spell)
                      else expectedEnd r)\<rparr>))"

section \<open>Basic facts\<close>

lemma currentCooldowns_side [simp]:
  "currentCooldowns (triggerEvent n k s) = currentCooldowns s"
  "currentCooldowns (console_write l s) = currentCooldowns s"
  by (simp_all add: triggerEvent_def console_write_def)

lemma isOnCooldown_side [simp]:
  "isOnCooldown (triggerEvent n k s) spell = isOnCooldown s spell"
  "isOnCooldown (console_write l s) spell = isOnCooldown s spell"
  by (simp_all add: isOnCooldown_def)

lemma isOnCooldown_Some:
  "fmlookup (currentCooldowns s) spell = Some r \<Longrightarrow> isOnCooldown s spell"
  by (simp add: isOnCooldown_def)

text \<open>On a spell that is on cooldown, neither \<open>refreshCooldown\<close> nor
  \<open>finishCooldown\<close> throws, and this is the state each leaves.\<close>

lemma refreshCooldown_on_cooldown:
  assumes "fmlookup (currentCooldowns s) spell = Some r"
  shows "refreshCooldown ce now s spell ov =
     Returns ()
       (if truthy (js_or ov (getExpectedCooldownDuration ce spell)) then
          triggerEvent ''refreshcooldown'' spell
            (s\<lparr>currentCooldowns :=
                 fmupd spell
                   (r\<lparr>expectedEnd := now + the (js_or ov (getExpectedCooldownDuration ce spell))\<rparr>)
                   (currentCooldowns s)\<rparr>)
        else console_write (Warn_no_cooldown spell) s)"
  using assms by (simp add: refreshCooldown_def Let_def isOnCooldown_def)

lemma finishCooldown_on_cooldown:
  assumes "fmlookup (currentCooldowns s) spell = Some r"
  shows "finishCooldown ce now s spell b =
     Returns ()
       (triggerEvent ''finishcooldown'' spell
          (console_write (Log_cooldown_finished spell)
             (if charges r = 1 \<or> b then s\<lparr>currentCooldowns := fmdrop spell (currentCooldowns s)\<rparr>
              else state_of (refreshCooldown ce now
                     (s\<lparr>currentCooldowns :=
                          fmupd spell (r\<lparr>charges := charges r - 1\<rparr>) (currentCooldowns s)\<rparr>)
                     spell None))))"
  using assms
  by (simp add: finishCooldown_def Let_def isOnCooldown_def
      refreshCooldown_on_cooldown [where r = "r\<lparr>charges := charges r - 1\<rparr>"])

lemma finish_calls_append [simp]: "finish_calls (xs @ ys) = finish_calls xs @ finish_calls ys"
  by (simp add: finish_calls_def)

lemma finishCooldown_one_charge:
  assumes "fmlookup (currentCooldowns s) spell = Some r"
  shows "\<exists>s' new. finishCooldown ce now s spell False = Returns () s'
     \<and> fmlookup (currentCooldowns s') spell = after_finish ce now spell r
     \<and> (\<forall>k. k \<noteq> spell \<longrightarrow> fmlookup (currentCooldowns s') k = fmlookup (currentCooldowns s) k)
     \<and> triggered s' = triggered s @ new \<and> finish_calls new = [spell]"
proof (cases "charges r = 1")
  case True
  then show ?thesis
    by (simp add: finishCooldown_on_cooldown [OF assms] after_finish_def triggerEvent_def
        console_write_def finish_calls_def)
next
  case False
  let ?s = "s\<lparr>currentCooldowns :=
                fmupd spell (r\<lparr>charges := charges r - 1\<rparr>) (currentCooldowns s)\<rparr>"
  have l: "fmlookup (currentCooldowns ?s) spell = Some (r\<lparr>charges := charges r - 1\<rparr>)"
    by simp
  show ?thesis
  proof (cases "truthy (getExpectedCooldownDuration ce spell)")
    case True
    with False show ?thesis
      by (simp add: finishCooldown_on_cooldown [OF assms] refreshCooldown_on_cooldown [OF l]
          after_finish_def triggerEvent_def console_write_def finish_calls_def js_or_def truthy_def)
  next
    case nt: False
    with False show ?thesis
      by (simp add: finishCooldown_on_cooldown [OF assms] refreshCooldown_on_cooldown [OF l]
          after_finish_def triggerEvent_def console_write_def finish_calls_def js_or_def truthy_def)
  qed
qed

lemma finishCooldown_lookup_same:
  assumes "fmlookup (currentCooldowns s) spell = Some r"
  shows "fmlookup (currentCooldowns (state_of (finishCooldown ce now s spell False))) spell
         = after_finish ce now spell r"
  using finishCooldown_one_charge [OF assms, of ce now] by auto

text \<open>The three ways \<open>startCooldown\<close> goes on with a duration that resolves.\<close>

lemma startCooldown_first:
  assumes "truthy (js_or ov (getExpectedCooldownDuration ce spell))"
    and "fmlookup (currentCooldowns s) spell = None"
  shows "startCooldown ce now s spell ov =
     Returns ()
       (triggerEvent ''startcooldown'' spell
          (console_write (Log_cooldown_started spell 1)
             (s\<lparr>currentCooldowns :=
                  fmupd spell
                    \<lparr>start = now,
                     expectedEnd = now + the (js_or ov (getExpectedCooldownDuration ce spell)),
                     charges = 1\<rparr>
                    (currentCooldowns s)\<rparr>)))"
  using assms by (subst startCooldown.simps) (simp add: Let_def isOnCooldown_def)

lemma startCooldown_charge:
  assumes "truthy (js_or ov (getExpectedCooldownDuration ce spell))"
    and "fmlookup (currentCooldowns s) spell = Some r"
    and "charges r < getMaxCharges ce spell"
  shows "startCooldown ce now s spell ov =
     Returns ()
       (triggerEvent ''startcooldowncharge'' spell
          (console_write (Log_used_another_charge spell (charges r + 1))
             (s\<lparr>currentCooldowns :=
                  fmupd spell (r\<lparr>charges := charges r + 1\<rparr>) (currentCooldowns s)\<rparr>)))"
  using assms
  by (subst startCooldown.simps) (simp add: Let_def isOnCooldown_def isAvailable_def)

lemma startCooldown_saturated:
  assumes "truthy (js_or ov (getExpectedCooldownDuration ce spell))"
    and "fmlookup (currentCooldowns s) spell = Some r"
    and "\<not> isAvailable ce s spell"
  shows "startCooldown ce now s spell ov =
     startCooldown ce now
       (state_of (finishCooldown ce now
          (console_write
             (Error_cast_while_on_cooldown spell (now - start r)
                (Some (expectedEnd r - now)) (expectedEnd r - start r)) s)
          spell False))
       spell ov"
proof -
  let ?s = "console_write
              (Error_cast_while_on_cooldown spell (now - start r)
                 (Some (expectedEnd r - now)) (expectedEnd r - start r)) s"
  from assms(2) have r': "fmlookup (currentCooldowns ?s) spell = Some r" by simp
  show ?thesis
    using assms
    by (subst startCooldown.simps)
       (simp add: Let_def isOnCooldown_def cooldownRemaining_def finishCooldown_on_cooldown [OF r'])
qed


section \<open>Availability\<close>

text \<open>
  Claim C6. \<open>isAvailable\<close> is true when the spell has no record; when it has one, it is
  true exactly when the configured maximum number of charges is greater than the
  record's \<open>charges\<close>. \<open>isOnCooldown\<close> is the presence of the record, so the two are
  not each other's negation: some state has a spell both on cooldown and available.
\<close>

theorem isAvailable_charges:
  "isAvailable ce s spell =
     (case fmlookup (currentCooldowns s) spell of
        None \<Rightarrow> True
      | Some r \<Rightarrow> getMaxCharges ce spell > charges r)
   \<and> isOnCooldown s spell = (fmlookup (currentCooldowns s) spell \<noteq> None)
   \<and> (\<exists>ce' s' spell'. isOnCooldown s' spell' \<and> isAvailable ce' s' spell')"
proof -
  let ?ce = "\<lparr>getMaxCharges = (\<lambda>_. 2), getExpectedCooldownDuration = (\<lambda>_. Some 1000)\<rparr>"
  let ?s = "\<lparr>currentCooldowns =
               fmupd (7::nat) \<lparr>start = 0, expectedEnd = 1000, charges = 1\<rparr> fmempty,
             triggered = [], console = []\<rparr>"
  have "isOnCooldown ?s 7 \<and> isAvailable ?ce ?s 7"
    by (simp add: isOnCooldown_def isAvailable_def)
  then have "\<exists>ce' s' spell'. isOnCooldown s' spell' \<and> isAvailable ce' s' spell'"
    by blast
  moreover have "isAvailable ce s spell =
     (case fmlookup (currentCooldowns s) spell of
        None \<Rightarrow> True
      | Some r \<Rightarrow> getMaxCharges ce spell > charges r)"
    by (simp add: isAvailable_def isOnCooldown_def split: option.split)
  ultimately show ?thesis
    by (simp add: isOnCooldown_def)
qed

text \<open>A spell with two charges, one of them on cooldown: on cooldown and available.\<close>

theorem isAvailable_charges_witness:
  "isAvailable \<lparr>getMaxCharges = (\<lambda>_. 2), getExpectedCooldownDuration = (\<lambda>_. Some 1000)\<rparr>
     \<lparr>currentCooldowns = fmupd 7 \<lparr>start = 0, expectedEnd = 1000, charges = 1\<rparr> fmempty,
      triggered = [], console = []\<rparr> 7
   \<and> isOnCooldown
       \<lparr>currentCooldowns = fmupd 7 \<lparr>start = 0, expectedEnd = 1000, charges = 1\<rparr> fmempty,
        triggered = [], console = []\<rparr> 7"
  using isAvailable_charges
    [of "\<lparr>getMaxCharges = (\<lambda>_. 2), getExpectedCooldownDuration = (\<lambda>_. Some 1000)\<rparr>"
        "\<lparr>currentCooldowns = fmupd 7 \<lparr>start = 0, expectedEnd = 1000, charges = 1\<rparr> fmempty,
          triggered = [], console = []\<rparr>" 7]
  by simp

section \<open>Calls that fail or do nothing\<close>

text \<open>
  Claim C7. On a spell that is not on cooldown, \<open>finishCooldown\<close> and \<open>refreshCooldown\<close>
  throw their invalid-state error, and the state at the throw is the state the call
  was made in: nothing was stored, triggered or printed.
\<close>

theorem not_on_cooldown_throws:
  assumes "\<not> isOnCooldown s spell"
  shows "finishCooldown ce now s spell resetAllCharges =
           Throws (Error_finish_not_on_cooldown spell) s
       \<and> refreshCooldown ce now s spell overrideDurationMs =
           Throws (Error_refresh_not_on_cooldown spell) s"
  using assms by (simp add: finishCooldown_def refreshCooldown_def)

theorem not_on_cooldown_throws_witness:
  "\<not> isOnCooldown initial 7
   \<and> finishCooldown \<lparr>getMaxCharges = (\<lambda>_. 2), getExpectedCooldownDuration = (\<lambda>_. Some 1000)\<rparr>
        5 initial 7 False = Throws (Error_finish_not_on_cooldown 7) initial
   \<and> refreshCooldown \<lparr>getMaxCharges = (\<lambda>_. 2), getExpectedCooldownDuration = (\<lambda>_. Some 1000)\<rparr>
        5 initial 7 None = Throws (Error_refresh_not_on_cooldown 7) initial"
proof -
  have h: "\<not> isOnCooldown initial 7"
    by (simp add: isOnCooldown_def initial_def)
  from not_on_cooldown_throws [OF h] h show ?thesis
    by blast
qed

text \<open>
  Claim C8. When no effective duration resolves (the override, if any, is falsy and
  the catalog's duration is missing or falsy; in particular with no override and no
  catalog duration), \<open>startCooldown\<close> returns normally and only prints its warning:
  the store and the triggered notifications are those of the state it was called in.
\<close>

theorem startCooldown_no_duration:
  assumes "\<not> truthy (js_or overrideDurationMs (getExpectedCooldownDuration ce spell))"
  shows "startCooldown ce now s spell overrideDurationMs =
           Returns () (s\<lparr>console := console s @ [Warn_no_cooldown spell]\<rparr>)"
  using assms by (simp add: startCooldown.simps console_write_def)

theorem startCooldown_no_duration_witness:
  "\<not> truthy (js_or None
        (getExpectedCooldownDuration
           \<lparr>getMaxCharges = (\<lambda>_. 1), getExpectedCooldownDuration = (\<lambda>_. None)\<rparr> 7))
   \<and> startCooldown \<lparr>getMaxCharges = (\<lambda>_. 1), getExpectedCooldownDuration = (\<lambda>_. None)\<rparr>
        5 initial 7 None
      = Returns () \<lparr>currentCooldowns = fmempty, triggered = [], console = [Warn_no_cooldown 7]\<rparr>"
proof -
  have h: "\<not> truthy (js_or None
        (getExpectedCooldownDuration
           \<lparr>getMaxCharges = (\<lambda>_. 1), getExpectedCooldownDuration = (\<lambda>_. None)\<rparr> 7))"
    by (simp add: truthy_def js_or_def)
  from startCooldown_no_duration [OF h, of 5 initial] h show ?thesis
    by (simp add: initial_def)
qed

section \<open>An override of zero\<close>



section \<open>Finishing a cooldown\<close>

text \<open>
  Claim C4 says that finishing one of two charges leaves a freshly reset
  \<open>expectedEnd\<close>. \<open>finishCooldown\<close> calls \<open>refreshCooldown\<close> without an override, and
  that call only warns when the catalog has no duration for the spell. Here spell 7
  has two charges and no catalog duration; both charges are started at 0 with an
  override of 5000. Finishing one charge at 6000 leaves one charge with the
  \<open>expectedEnd\<close> of 5000 it had, not 6000 plus a duration.
\<close>

theorem finishCooldown_charges_counterexample:
  "currentCooldowns
     (run \<lparr>getMaxCharges = (\<lambda>_. 2), getExpectedCooldownDuration = (\<lambda>_. None)\<rparr> initial
        [(0, StartCooldown 7 (Some 5000)), (0, StartCooldown 7 (Some 5000))])
   = fmupd 7 \<lparr>start = 0, expectedEnd = 5000, charges = 2\<rparr> fmempty
   \<and> finishCooldown \<lparr>getMaxCharges = (\<lambda>_. 2), getExpectedCooldownDuration = (\<lambda>_. None)\<rparr> 6000
       \<lparr>currentCooldowns = fmupd 7 \<lparr>start = 0, expectedEnd = 5000, charges = 2\<rparr> fmempty,
        triggered = [], console = []\<rparr> 7 False
     = Returns ()
         \<lparr>currentCooldowns = fmupd 7 \<lparr>start = 0, expectedEnd = 5000, charges = 1\<rparr> fmempty,
          triggered = [(''finishcooldown'', 7)],
          console = [Warn_no_cooldown 7, Log_cooldown_finished 7]\<rparr>
   \<and> fmlookup
       (currentCooldowns
          (state_of
             (finishCooldown
                \<lparr>getMaxCharges = (\<lambda>_. 2), getExpectedCooldownDuration = (\<lambda>_. None)\<rparr> 6000
                (run \<lparr>getMaxCharges = (\<lambda>_. 2), getExpectedCooldownDuration = (\<lambda>_. None)\<rparr>
                   initial
                   [(0, StartCooldown 7 (Some 5000)), (0, StartCooldown 7 (Some 5000))])
                7 False))) 7
     = Some \<lparr>start = 0, expectedEnd = 5000, charges = 1\<rparr>"
  by (simp add: run_def initial_def startCooldown.simps finishCooldown_def refreshCooldown_def
      isOnCooldown_def isAvailable_def triggerEvent_def console_write_def js_or_def truthy_def)

text \<open>
  Claim C4, amended. On a spell that is on cooldown with record \<open>r\<close>, \<open>finishCooldown\<close>
  returns normally and
  \<^item> when \<open>charges r = 1\<close> or \<open>resetAllCharges\<close>, removes the record;
  \<^item> otherwise lowers \<open>charges\<close> by one and calls \<open>refreshCooldown\<close> (with no override) on
    the store so changed; that call returns, and the record it leaves has
    \<open>expectedEnd = now + d\<close> when the catalog configures a duration \<open>d\<close> other than 0
    for the spell, and the \<open>expectedEnd\<close> it had when the catalog configures none;
  \<^item> in both cases prints its line and triggers \<^verbatim>\<open>finishcooldown\<close>.

  In particular, with \<open>charges r = 2\<close> the spell is still on cooldown afterwards, with
  one charge and that \<open>expectedEnd\<close>, and any further \<open>finishCooldown\<close> removes the
  record.
\<close>

theorem finishCooldown_charges:
  assumes "fmlookup (currentCooldowns s) spell = Some r"
  shows
    "(charges r = 1 \<or> resetAllCharges \<longrightarrow>
        finishCooldown ce now s spell resetAllCharges =
          Returns ()
            (triggerEvent ''finishcooldown'' spell
               (console_write (Log_cooldown_finished spell)
                  (s\<lparr>currentCooldowns := fmdrop spell (currentCooldowns s)\<rparr>))))
     \<and> (\<not> (charges r = 1 \<or> resetAllCharges) \<longrightarrow>
          (\<exists>s1. refreshCooldown ce now
                   (s\<lparr>currentCooldowns :=
                        fmupd spell (r\<lparr>charges := charges r - 1\<rparr>) (currentCooldowns s)\<rparr>)
                   spell None = Returns () s1
              \<and> finishCooldown ce now s spell resetAllCharges =
                  Returns ()
                    (triggerEvent ''finishcooldown'' spell
                       (console_write (Log_cooldown_finished spell) s1))
              \<and> fmlookup (currentCooldowns s1) spell =
                  Some (r\<lparr>charges := charges r - 1,
                          expectedEnd :=
                            (if truthy (getExpectedCooldownDuration ce spell)
                             then now + the (getExpectedCooldownDuration ce spell)
                             else expectedEnd r)\<rparr>)))
     \<and> (charges r = 2 \<longrightarrow>
          (\<exists>s'. finishCooldown ce now s spell False = Returns () s'
              \<and> isOnCooldown s' spell
              \<and> fmlookup (currentCooldowns s') spell =
                  Some (r\<lparr>charges := 1,
                          expectedEnd :=
                            (if truthy (getExpectedCooldownDuration ce spell)
                             then now + the (getExpectedCooldownDuration ce spell)
                             else expectedEnd r)\<rparr>)
              \<and> (\<forall>now' b. \<exists>s''. finishCooldown ce now' s' spell b = Returns () s''
                     \<and> \<not> isOnCooldown s'' spell)))"
proof (intro conjI impI)
  assume "charges r = 1 \<or> resetAllCharges"
  with assms show "finishCooldown ce now s spell resetAllCharges =
          Returns ()
            (triggerEvent ''finishcooldown'' spell
               (console_write (Log_cooldown_finished spell)
                  (s\<lparr>currentCooldowns := fmdrop spell (currentCooldowns s)\<rparr>)))"
    by (simp add: finishCooldown_on_cooldown [OF assms])
next
  let ?s = "s\<lparr>currentCooldowns :=
                fmupd spell (r\<lparr>charges := charges r - 1\<rparr>) (currentCooldowns s)\<rparr>"
  let ?s1 = "state_of (refreshCooldown ce now ?s spell None)"
  assume a: "\<not> (charges r = 1 \<or> resetAllCharges)"
  have l: "fmlookup (currentCooldowns ?s) spell = Some (r\<lparr>charges := charges r - 1\<rparr>)"
    by simp
  note rf = refreshCooldown_on_cooldown [OF l, of ce now None]
  have 1: "refreshCooldown ce now ?s spell None = Returns () ?s1"
    by (simp add: rf)
  have 2: "finishCooldown ce now s spell resetAllCharges =
          Returns ()
            (triggerEvent ''finishcooldown'' spell
               (console_write (Log_cooldown_finished spell) ?s1))"
    using a by (simp add: finishCooldown_on_cooldown [OF assms])
  have 3: "fmlookup (currentCooldowns ?s1) spell =
         Some (r\<lparr>charges := charges r - 1,
                 expectedEnd :=
                   (if truthy (getExpectedCooldownDuration ce spell)
                    then now + the (getExpectedCooldownDuration ce spell)
                    else expectedEnd r)\<rparr>)"
    by (simp add: rf js_or_def truthy_def)
  from 1 2 3 show "\<exists>s1. refreshCooldown ce now ?s spell None = Returns () s1
              \<and> finishCooldown ce now s spell resetAllCharges =
                  Returns ()
                    (triggerEvent ''finishcooldown'' spell
                       (console_write (Log_cooldown_finished spell) s1))
              \<and> fmlookup (currentCooldowns s1) spell =
                  Some (r\<lparr>charges := charges r - 1,
                          expectedEnd :=
                            (if truthy (getExpectedCooldownDuration ce spell)
                             then now + the (getExpectedCooldownDuration ce spell)
                             else expectedEnd r)\<rparr>)"
    by blast
next
  let ?s' = "state_of (finishCooldown ce now s spell False)"
  let ?r' = "r\<lparr>charges := 1,
                expectedEnd :=
                  (if truthy (getExpectedCooldownDuration ce spell)
                   then now + the (getExpectedCooldownDuration ce spell)
                   else expectedEnd r)\<rparr>"
  assume c: "charges r = 2"
  have 1: "finishCooldown ce now s spell False = Returns () ?s'"
    by (simp add: finishCooldown_on_cooldown [OF assms])
  have "fmlookup (currentCooldowns ?s') spell = after_finish ce now spell r"
    by (rule finishCooldown_lookup_same [OF assms])
  with c have 2: "fmlookup (currentCooldowns ?s') spell = Some ?r'"
    by (simp add: after_finish_def)
  have 3: "charges ?r' = 1"
    by simp
  have 4: "\<forall>now' b. \<exists>s''. finishCooldown ce now' ?s' spell b = Returns () s''
                     \<and> \<not> isOnCooldown s'' spell"
    using 3 by (simp add: finishCooldown_on_cooldown [OF 2] isOnCooldown_def)
  from 2 have 5: "isOnCooldown ?s' spell"
    by (simp add: isOnCooldown_def)
  from 1 2 4 5 show "\<exists>s'. finishCooldown ce now s spell False = Returns () s'
              \<and> isOnCooldown s' spell
              \<and> fmlookup (currentCooldowns s') spell = Some ?r'
              \<and> (\<forall>now' b. \<exists>s''. finishCooldown ce now' s' spell b = Returns () s''
                     \<and> \<not> isOnCooldown s'' spell)"
    by blast
qed

text \<open>
  Spell 7 with two charges on cooldown, finished at 1001: with all charges reset; one
  charge with a catalog duration of 1000; and one charge with no catalog duration.
\<close>

theorem finishCooldown_charges_witness:
  "finishCooldown \<lparr>getMaxCharges = (\<lambda>_. 2), getExpectedCooldownDuration = (\<lambda>_. Some 1000)\<rparr> 1001
     \<lparr>currentCooldowns = fmupd 7 \<lparr>start = 0, expectedEnd = 1000, charges = 2\<rparr> fmempty,
      triggered = [], console = []\<rparr> 7 True
   = Returns ()
       \<lparr>currentCooldowns = fmempty, triggered = [(''finishcooldown'', 7)],
        console = [Log_cooldown_finished 7]\<rparr>
   \<and> (\<exists>s'. finishCooldown
               \<lparr>getMaxCharges = (\<lambda>_. 2), getExpectedCooldownDuration = (\<lambda>_. Some 1000)\<rparr> 1001
               \<lparr>currentCooldowns = fmupd 7 \<lparr>start = 0, expectedEnd = 1000, charges = 2\<rparr> fmempty,
                triggered = [], console = []\<rparr> 7 False = Returns () s'
          \<and> isOnCooldown s' 7
          \<and> fmlookup (currentCooldowns s') 7 = Some \<lparr>start = 0, expectedEnd = 2001, charges = 1\<rparr>
          \<and> (\<exists>s''. finishCooldown
                 \<lparr>getMaxCharges = (\<lambda>_. 2), getExpectedCooldownDuration = (\<lambda>_. Some 1000)\<rparr> 2002
                 s' 7 False = Returns () s'' \<and> \<not> isOnCooldown s'' 7))
   \<and> (\<exists>s'. finishCooldown
               \<lparr>getMaxCharges = (\<lambda>_. 2), getExpectedCooldownDuration = (\<lambda>_. None)\<rparr> 1001
               \<lparr>currentCooldowns = fmupd 7 \<lparr>start = 0, expectedEnd = 1000, charges = 2\<rparr> fmempty,
                triggered = [], console = []\<rparr> 7 False = Returns () s'
          \<and> isOnCooldown s' 7
          \<and> fmlookup (currentCooldowns s') 7 = Some \<lparr>start = 0, expectedEnd = 1000, charges = 1\<rparr>
          \<and> (\<exists>s''. finishCooldown
                 \<lparr>getMaxCharges = (\<lambda>_. 2), getExpectedCooldownDuration = (\<lambda>_. None)\<rparr> 2002
                 s' 7 False = Returns () s'' \<and> \<not> isOnCooldown s'' 7))"
proof -
  let ?ce = "\<lparr>getMaxCharges = (\<lambda>_. 2), getExpectedCooldownDuration = (\<lambda>_. Some 1000)\<rparr>"
  let ?cn = "\<lparr>getMaxCharges = (\<lambda>_. 2), getExpectedCooldownDuration = (\<lambda>_. None)\<rparr>"
  let ?r = "\<lparr>start = 0, expectedEnd = 1000, charges = 2\<rparr>"
  let ?s = "\<lparr>currentCooldowns = fmupd 7 ?r fmempty, triggered = [], console = []\<rparr>"
  have h: "fmlookup (currentCooldowns ?s) 7 = Some ?r"
    by simp
  have c2: "charges ?r = 2"
    by simp
  have a: "finishCooldown ?ce 1001 ?s 7 True =
      Returns () \<lparr>currentCooldowns = fmempty, triggered = [(''finishcooldown'', 7)],
        console = [Log_cooldown_finished 7]\<rparr>"
    using finishCooldown_charges [OF h, of True ?ce 1001]
    by (simp add: triggerEvent_def console_write_def fmdrop_fmupd)
  have b: "\<exists>s'. finishCooldown ?ce 1001 ?s 7 False = Returns () s'
          \<and> isOnCooldown s' 7
          \<and> fmlookup (currentCooldowns s') 7 = Some \<lparr>start = 0, expectedEnd = 2001, charges = 1\<rparr>
          \<and> (\<exists>s''. finishCooldown ?ce 2002 s' 7 False = Returns () s'' \<and> \<not> isOnCooldown s'' 7)"
  proof -
    from finishCooldown_charges [OF h, of False ?ce 1001, THEN conjunct2, THEN conjunct2,
        rule_format, OF c2]
    obtain s' where f: "finishCooldown ?ce 1001 ?s 7 False = Returns () s'"
      and o: "isOnCooldown s' 7"
      and e: "fmlookup (currentCooldowns s') 7 =
                Some (?r\<lparr>charges := 1,
                        expectedEnd :=
                          (if truthy (getExpectedCooldownDuration ?ce 7)
                           then 1001 + the (getExpectedCooldownDuration ?ce 7)
                           else expectedEnd ?r)\<rparr>)"
      and g: "\<forall>now' b. \<exists>s''. finishCooldown ?ce now' s' 7 b = Returns () s''
                \<and> \<not> isOnCooldown s'' 7"
      by blast
    from e have "fmlookup (currentCooldowns s') 7 =
        Some \<lparr>start = 0, expectedEnd = 2001, charges = 1\<rparr>"
      by (simp add: truthy_def)
    with f o g show ?thesis
      by blast
  qed
  have c: "\<exists>s'. finishCooldown ?cn 1001 ?s 7 False = Returns () s'
          \<and> isOnCooldown s' 7
          \<and> fmlookup (currentCooldowns s') 7 = Some \<lparr>start = 0, expectedEnd = 1000, charges = 1\<rparr>
          \<and> (\<exists>s''. finishCooldown ?cn 2002 s' 7 False = Returns () s'' \<and> \<not> isOnCooldown s'' 7)"
  proof -
    from finishCooldown_charges [OF h, of False ?cn 1001, THEN conjunct2, THEN conjunct2,
        rule_format, OF c2]
    obtain s' where f: "finishCooldown ?cn 1001 ?s 7 False = Returns () s'"
      and o: "isOnCooldown s' 7"
      and e: "fmlookup (currentCooldowns s') 7 =
                Some (?r\<lparr>charges := 1,
                        expectedEnd :=
                          (if truthy (getExpectedCooldownDuration ?cn 7)
                           then 1001 + the (getExpectedCooldownDuration ?cn 7)
                           else expectedEnd ?r)\<rparr>)"
      and g: "\<forall>now' b. \<exists>s''. finishCooldown ?cn now' s' 7 b = Returns () s''
                \<and> \<not> isOnCooldown s'' 7"
      by blast
    from e have "fmlookup (currentCooldowns s') 7 =
        Some \<lparr>start = 0, expectedEnd = 1000, charges = 1\<rparr>"
      by (simp add: truthy_def)
    with f o g show ?thesis
      by blast
  qed
  from a b c show ?thesis
    by blast
qed

section \<open>Reducing a cooldown\<close>

text \<open>
  Claim C2 says that \<open>reduceCooldown\<close> finishes the cooldown whenever the amount is at
  least the remaining time. The source compares with \<^verbatim>\<open><\<close>: at
  \<open>amount = remaining\<close> the record stays, with \<open>expectedEnd\<close> pulled back to the
  current timestamp, and \<open>finishCooldown\<close> is not called. Here the remaining time is
  1000 and so is the amount: the record is kept and nothing is triggered, where
  \<open>finishCooldown\<close> would have removed it.
\<close>

theorem reduceCooldown_equal_counterexample:
  "cooldownRemaining 0
     \<lparr>currentCooldowns = fmupd 7 \<lparr>start = 0, expectedEnd = 1000, charges = 1\<rparr> fmempty,
      triggered = [], console = []\<rparr> 7 = Some 1000
   \<and> reduceCooldown \<lparr>getMaxCharges = (\<lambda>_. 1), getExpectedCooldownDuration = (\<lambda>_. Some 1000)\<rparr> 0
       \<lparr>currentCooldowns = fmupd 7 \<lparr>start = 0, expectedEnd = 1000, charges = 1\<rparr> fmempty,
        triggered = [], console = []\<rparr> 7 1000
     = Returns (Some 1000)
         \<lparr>currentCooldowns = fmupd 7 \<lparr>start = 0, expectedEnd = 0, charges = 1\<rparr> fmempty,
          triggered = [], console = []\<rparr>
   \<and> finishCooldown \<lparr>getMaxCharges = (\<lambda>_. 1), getExpectedCooldownDuration = (\<lambda>_. Some 1000)\<rparr> 0
       \<lparr>currentCooldowns = fmupd 7 \<lparr>start = 0, expectedEnd = 1000, charges = 1\<rparr> fmempty,
        triggered = [], console = []\<rparr> 7 False
     = Returns ()
         \<lparr>currentCooldowns = fmempty,
          triggered = [(''finishcooldown'', 7)], console = [Log_cooldown_finished 7]\<rparr>"
  by (simp add: cooldownRemaining_def reduceCooldown_def finishCooldown_def isOnCooldown_def
      triggerEvent_def console_write_def fmdrop_fmupd)

text \<open>
  Claim C2, amended. \<open>reduceCooldown\<close> returns \<^verbatim>\<open>null\<close> and leaves the state as it is
  when the spell is not on cooldown. When it is, with record \<open>r\<close> and remaining time
  \<open>expectedEnd r - now\<close>:
  \<^item> if the remaining time is less than the amount, \<open>finishCooldown\<close> is called, it
    returns, and the remaining time is the result;
  \<^item> if the amount is at most the remaining time, \<open>expectedEnd\<close> is lowered by the amount
    and the amount is the result.
\<close>

theorem reduceCooldown_cases:
  "(fmlookup (currentCooldowns s) spell = None \<longrightarrow>
      reduceCooldown ce now s spell amount = Returns None s)
   \<and> (\<forall>r. fmlookup (currentCooldowns s) spell = Some r \<and> expectedEnd r - now < amount \<longrightarrow>
        cooldownRemaining now s spell = Some (expectedEnd r - now)
        \<and> (\<exists>s'. finishCooldown ce now s spell False = Returns () s'
              \<and> reduceCooldown ce now s spell amount = Returns (Some (expectedEnd r - now)) s'))
   \<and> (\<forall>r. fmlookup (currentCooldowns s) spell = Some r \<and> amount \<le> expectedEnd r - now \<longrightarrow>
        cooldownRemaining now s spell = Some (expectedEnd r - now)
        \<and> reduceCooldown ce now s spell amount =
            Returns (Some amount)
              (s\<lparr>currentCooldowns :=
                   fmupd spell (r\<lparr>expectedEnd := expectedEnd r - amount\<rparr>) (currentCooldowns s)\<rparr>))"
proof (intro conjI allI impI)
  assume "fmlookup (currentCooldowns s) spell = None"
  then show "reduceCooldown ce now s spell amount = Returns None s"
    by (simp add: reduceCooldown_def)
next
  fix r
  assume a: "fmlookup (currentCooldowns s) spell = Some r \<and> expectedEnd r - now < amount"
  then show "cooldownRemaining now s spell = Some (expectedEnd r - now)"
    by (simp add: cooldownRemaining_def isOnCooldown_def)
  from a have "reduceCooldown ce now s spell amount =
      Returns (Some (expectedEnd r - now)) (state_of (finishCooldown ce now s spell False))"
    by (simp add: reduceCooldown_def cooldownRemaining_def isOnCooldown_def
        finishCooldown_on_cooldown [of s spell r])
  moreover from a have "finishCooldown ce now s spell False =
      Returns () (state_of (finishCooldown ce now s spell False))"
    by (simp add: finishCooldown_on_cooldown [of s spell r])
  ultimately show "\<exists>s'. finishCooldown ce now s spell False = Returns () s'
              \<and> reduceCooldown ce now s spell amount = Returns (Some (expectedEnd r - now)) s'"
    by blast
next
  fix r
  assume a: "fmlookup (currentCooldowns s) spell = Some r \<and> amount \<le> expectedEnd r - now"
  then show "cooldownRemaining now s spell = Some (expectedEnd r - now)"
    by (simp add: cooldownRemaining_def isOnCooldown_def)
  from a show "reduceCooldown ce now s spell amount =
            Returns (Some amount)
              (s\<lparr>currentCooldowns :=
                   fmupd spell (r\<lparr>expectedEnd := expectedEnd r - amount\<rparr>) (currentCooldowns s)\<rparr>)"
    by (simp add: reduceCooldown_def cooldownRemaining_def isOnCooldown_def)
qed

text \<open>One instance of each of the three cases.\<close>

theorem reduceCooldown_cases_witness:
  "reduceCooldown \<lparr>getMaxCharges = (\<lambda>_. 1), getExpectedCooldownDuration = (\<lambda>_. Some 1000)\<rparr> 0
     initial 7 500 = Returns None initial
   \<and> reduceCooldown \<lparr>getMaxCharges = (\<lambda>_. 1), getExpectedCooldownDuration = (\<lambda>_. Some 1000)\<rparr> 0
       \<lparr>currentCooldowns = fmupd 7 \<lparr>start = 0, expectedEnd = 1000, charges = 1\<rparr> fmempty,
        triggered = [], console = []\<rparr> 7 1001
     = Returns (Some 1000)
         \<lparr>currentCooldowns = fmempty,
          triggered = [(''finishcooldown'', 7)], console = [Log_cooldown_finished 7]\<rparr>
   \<and> reduceCooldown \<lparr>getMaxCharges = (\<lambda>_. 1), getExpectedCooldownDuration = (\<lambda>_. Some 1000)\<rparr> 0
       \<lparr>currentCooldowns = fmupd 7 \<lparr>start = 0, expectedEnd = 1000, charges = 1\<rparr> fmempty,
        triggered = [], console = []\<rparr> 7 400
     = Returns (Some 400)
         \<lparr>currentCooldowns = fmupd 7 \<lparr>start = 0, expectedEnd = 600, charges = 1\<rparr> fmempty,
          triggered = [], console = []\<rparr>"
proof -
  let ?ce = "\<lparr>getMaxCharges = (\<lambda>_. 1), getExpectedCooldownDuration = (\<lambda>_. Some 1000)\<rparr>"
  let ?r = "\<lparr>start = 0, expectedEnd = 1000, charges = 1\<rparr>"
  let ?s = "\<lparr>currentCooldowns = fmupd 7 ?r fmempty, triggered = [], console = []\<rparr>"
  have l0: "fmlookup (currentCooldowns initial) 7 = None"
    by (simp add: initial_def)
  have l1: "fmlookup (currentCooldowns ?s) 7 = Some ?r \<and> expectedEnd ?r - 0 < 1001"
    by simp
  have l2: "fmlookup (currentCooldowns ?s) 7 = Some ?r \<and> 400 \<le> expectedEnd ?r - 0"
    by simp
  have f: "finishCooldown ?ce 0 ?s 7 False =
      Returns () \<lparr>currentCooldowns = fmempty,
          triggered = [(''finishcooldown'', 7)], console = [Log_cooldown_finished 7]\<rparr>"
    by (simp add: finishCooldown_def isOnCooldown_def triggerEvent_def console_write_def fmdrop_fmupd)
  have a: "reduceCooldown ?ce 0 initial 7 500 = Returns None initial"
    using reduceCooldown_cases [of initial 7 ?ce 0 500] l0 by blast
  have b: "\<exists>s'. finishCooldown ?ce 0 ?s 7 False = Returns () s'
              \<and> reduceCooldown ?ce 0 ?s 7 1001 = Returns (Some (expectedEnd ?r - 0)) s'"
    using reduceCooldown_cases [of ?s 7 ?ce 0 1001] l1 by blast
  have c: "reduceCooldown ?ce 0 ?s 7 400 = Returns (Some 400)
              (?s\<lparr>currentCooldowns :=
                   fmupd 7 (?r\<lparr>expectedEnd := expectedEnd ?r - 400\<rparr>) (currentCooldowns ?s)\<rparr>)"
    using reduceCooldown_cases [of ?s 7 ?ce 0 400] l2 by blast
  from a b c f show ?thesis
    by simp
qed

section \<open>A cast while no charge is available\<close>




section \<open>Casting again and again\<close>

text \<open>One more \<open>startCooldown\<close> on a record within its bounds: one more charge, up
  to the maximum.\<close>

lemma startCooldown_next_charge:
  assumes d: "truthy (getExpectedCooldownDuration ce spell)"
    and r: "fmlookup (currentCooldowns s) spell = Some r"
    and c: "1 \<le> charges r" "charges r \<le> getMaxCharges ce spell"
  shows "\<exists>s' r'. startCooldown ce now s spell None = Returns () s'
           \<and> fmlookup (currentCooldowns s') spell = Some r'
           \<and> charges r' = min (charges r + 1) (getMaxCharges ce spell)"
proof (cases "charges r < getMaxCharges ce spell")
  case True
  from d have d': "truthy (js_or None (getExpectedCooldownDuration ce spell))"
    by (simp add: js_or_def truthy_def)
  from startCooldown_charge [OF d' r True, of now] True show ?thesis
    by simp
next
  case False
  with c have eq: "charges r = getMaxCharges ce spell" by simp
  from d have d': "truthy (js_or None (getExpectedCooldownDuration ce spell))"
    by (simp add: js_or_def truthy_def)
  from False r have na: "\<not> isAvailable ce s spell"
    by (simp add: isAvailable_def isOnCooldown_def)
  let ?s = "console_write
              (Error_cast_while_on_cooldown spell (now - start r)
                 (Some (expectedEnd r - now)) (expectedEnd r - start r)) s"
  let ?s1 = "state_of (finishCooldown ce now ?s spell False)"
  from r have r': "fmlookup (currentCooldowns ?s) spell = Some r" by simp
  have l: "fmlookup (currentCooldowns ?s1) spell = after_finish ce now spell r"
    by (rule finishCooldown_lookup_same [OF r'])
  have e: "startCooldown ce now s spell None = startCooldown ce now ?s1 spell None"
    by (rule startCooldown_saturated [OF d' r na])
  show ?thesis
  proof (cases "charges r = 1")
    case True
    with l have "fmlookup (currentCooldowns ?s1) spell = None"
      by (simp add: after_finish_def)
    from startCooldown_first [OF d' this, of now] e True eq show ?thesis
      by simp
  next
    case False
    let ?r1 = "r\<lparr>charges := charges r - 1,
                  expectedEnd :=
                    (if truthy (getExpectedCooldownDuration ce spell)
                     then now + the (getExpectedCooldownDuration ce spell)
                     else expectedEnd r)\<rparr>"
    from False l have l1: "fmlookup (currentCooldowns ?s1) spell = Some ?r1"
      by (simp add: after_finish_def)
    have lt: "charges ?r1 < getMaxCharges ce spell"
      using eq by simp
    from startCooldown_charge [OF d' l1 lt, of now] e eq show ?thesis
      by simp
  qed
qed

lemma startCooldown_times_charges:
  assumes d: "truthy (getExpectedCooldownDuration ce spell)"
    and M: "1 \<le> getMaxCharges ce spell"
    and free: "\<not> isOnCooldown s spell"
  shows "\<exists>s' r'. startCooldown_times (Suc n) ce now s spell = Returns () s'
           \<and> fmlookup (currentCooldowns s') spell = Some r'
           \<and> charges r' = min (int (Suc n)) (getMaxCharges ce spell)"
proof (induction n)
  case 0
  from d have d': "truthy (js_or None (getExpectedCooldownDuration ce spell))"
    by (simp add: js_or_def truthy_def)
  from free have "fmlookup (currentCooldowns s) spell = None"
    by (simp add: isOnCooldown_def)
  from startCooldown_first [OF d' this, of now] M show ?case
    by simp
next
  case (Suc n)
  then obtain s' r' where
    t: "startCooldown_times (Suc n) ce now s spell = Returns () s'"
    and l: "fmlookup (currentCooldowns s') spell = Some r'"
    and c: "charges r' = min (int (Suc n)) (getMaxCharges ce spell)"
    by blast
  from c M have b: "1 \<le> charges r'" "charges r' \<le> getMaxCharges ce spell"
    by simp_all
  from startCooldown_next_charge [OF d l b, of now]
  obtain s'' r'' where
    "startCooldown ce now s' spell None = Returns () s''"
    "fmlookup (currentCooldowns s'') spell = Some r''"
    "charges r'' = min (charges r' + 1) (getMaxCharges ce spell)"
    by blast
  with t c show ?case
    by (subst startCooldown_times.simps) auto
qed

text \<open>
  Claim C5. Let the catalog configure a duration for the spell and a maximum of
  \<open>M \<ge> 1\<close> charges, and let the spell be off cooldown. Then \<open>N\<close> calls of
  \<open>startCooldown\<close> in a row, at one timestamp, all return, and leave no record when
  \<open>N = 0\<close> and a record with \<open>charges = min N M\<close> otherwise. After \<open>M\<close> calls the
  record has \<open>M\<close> charges and no charge is available, so the next call is the recovery
  path: the error line, \<open>finishCooldown\<close>, and the retry; it leaves \<open>M\<close> charges again.
\<close>

theorem startCooldown_times_min:
  assumes "truthy (getExpectedCooldownDuration ce spell)"
    and "1 \<le> getMaxCharges ce spell"
    and "\<not> isOnCooldown s spell"
  shows
    "(\<exists>s'. startCooldown_times N ce now s spell = Returns () s'
        \<and> map_option charges (fmlookup (currentCooldowns s') spell) =
            (if N = 0 then None else Some (min (int N) (getMaxCharges ce spell))))
     \<and> (\<exists>sM r. startCooldown_times (nat (getMaxCharges ce spell)) ce now s spell = Returns () sM
           \<and> fmlookup (currentCooldowns sM) spell = Some r
           \<and> charges r = getMaxCharges ce spell
           \<and> \<not> isAvailable ce sM spell
           \<and> startCooldown ce now sM spell None =
               (case finishCooldown ce now
                       (console_write
                          (Error_cast_while_on_cooldown spell (now - start r)
                             (Some (expectedEnd r - now)) (expectedEnd r - start r)) sM)
                       spell False of
                  Throws e t \<Rightarrow> Throws e t
                | Returns _ t \<Rightarrow> startCooldown ce now t spell None)
           \<and> (\<exists>s' r'. startCooldown ce now sM spell None = Returns () s'
                 \<and> fmlookup (currentCooldowns s') spell = Some r'
                 \<and> charges r' = getMaxCharges ce spell))"
proof (intro conjI)
  show "\<exists>s'. startCooldown_times N ce now s spell = Returns () s'
        \<and> map_option charges (fmlookup (currentCooldowns s') spell) =
            (if N = 0 then None else Some (min (int N) (getMaxCharges ce spell)))"
  proof (cases N)
    case 0
    with assms(3) show ?thesis
      by (simp add: isOnCooldown_def)
  next
    case (Suc n)
    from startCooldown_times_charges [OF assms, of n now] Suc show ?thesis
      by auto
  qed
next
  from assms(2) obtain m where m: "nat (getMaxCharges ce spell) = Suc m"
    by (cases "nat (getMaxCharges ce spell)") auto
  from startCooldown_times_charges [OF assms, of m now] m assms(2)
  obtain sM r where
    t: "startCooldown_times (nat (getMaxCharges ce spell)) ce now s spell = Returns () sM"
    and l: "fmlookup (currentCooldowns sM) spell = Some r"
    and c: "charges r = getMaxCharges ce spell"
    by (metis int_nat_eq min.idem order_trans zero_le_one)
  from l c have na: "\<not> isAvailable ce sM spell"
    by (simp add: isAvailable_def isOnCooldown_def)
  from assms(1) have d': "truthy (js_or None (getExpectedCooldownDuration ce spell))"
    by (simp add: js_or_def truthy_def)
  have rec: "startCooldown ce now sM spell None =
               (case finishCooldown ce now
                       (console_write
                          (Error_cast_while_on_cooldown spell (now - start r)
                             (Some (expectedEnd r - now)) (expectedEnd r - start r)) sM)
                       spell False of
                  Throws e t \<Rightarrow> Throws e t
                | Returns _ t \<Rightarrow> startCooldown ce now t spell None)"
    using d' l na
    by (subst startCooldown.simps) (simp add: Let_def isOnCooldown_def cooldownRemaining_def)
  from c assms(2) have b: "1 \<le> charges r" "charges r \<le> getMaxCharges ce spell"
    by simp_all
  from startCooldown_next_charge [OF assms(1) l b, of now] c
  have "\<exists>s' r'. startCooldown ce now sM spell None = Returns () s'
                 \<and> fmlookup (currentCooldowns s') spell = Some r'
                 \<and> charges r' = getMaxCharges ce spell"
    by simp
  with t l c na rec show "\<exists>sM r. startCooldown_times (nat (getMaxCharges ce spell)) ce now s spell = Returns () sM
           \<and> fmlookup (currentCooldowns sM) spell = Some r
           \<and> charges r = getMaxCharges ce spell
           \<and> \<not> isAvailable ce sM spell
           \<and> startCooldown ce now sM spell None =
               (case finishCooldown ce now
                       (console_write
                          (Error_cast_while_on_cooldown spell (now - start r)
                             (Some (expectedEnd r - now)) (expectedEnd r - start r)) sM)
                       spell False of
                  Throws e t \<Rightarrow> Throws e t
                | Returns _ t \<Rightarrow> startCooldown ce now t spell None)
           \<and> (\<exists>s' r'. startCooldown ce now sM spell None = Returns () s'
                 \<and> fmlookup (currentCooldowns s') spell = Some r'
                 \<and> charges r' = getMaxCharges ce spell)"
    by blast
qed

text \<open>Three casts of a spell with two charges.\<close>

theorem startCooldown_times_min_witness:
  "truthy (getExpectedCooldownDuration
      \<lparr>getMaxCharges = (\<lambda>_. 2), getExpectedCooldownDuration = (\<lambda>_. Some 1000)\<rparr> 7)
   \<and> 1 \<le> getMaxCharges
      \<lparr>getMaxCharges = (\<lambda>_. 2), getExpectedCooldownDuration = (\<lambda>_. Some 1000)\<rparr> 7
   \<and> \<not> isOnCooldown initial 7
   \<and> (\<exists>s'. startCooldown_times 3
         \<lparr>getMaxCharges = (\<lambda>_. 2), getExpectedCooldownDuration = (\<lambda>_. Some 1000)\<rparr> 0 initial 7
         = Returns () s'
        \<and> map_option charges (fmlookup (currentCooldowns s') 7) = Some 2)"
proof -
  let ?ce = "\<lparr>getMaxCharges = (\<lambda>_. 2), getExpectedCooldownDuration = (\<lambda>_. Some 1000)\<rparr>"
  have h1: "truthy (getExpectedCooldownDuration ?ce 7)"
    by (simp add: truthy_def)
  have h2: "1 \<le> getMaxCharges ?ce 7"
    by simp
  have h3: "\<not> isOnCooldown initial 7"
    by (simp add: isOnCooldown_def initial_def)
  from startCooldown_times_min [OF h1 h2 h3, of 3 0] h1 h2 h3 show ?thesis
    by simp
qed

section \<open>The sweep on every event\<close>

text \<open>
  The loop over keys that are distinct and all in the store: it returns, each key whose
  record ends before \<open>ts\<close> is finished once and every other record is left as it was.
\<close>

lemma forEach_spellId_sweep:
  assumes "distinct ks" and "\<forall>k\<in>set ks. fmlookup (currentCooldowns s) k \<noteq> None"
  shows "\<exists>s' new. forEach_spellId ce now ts ks s = Returns () s'
     \<and> (\<forall>k. fmlookup (currentCooldowns s') k =
            (case fmlookup (currentCooldowns s) k of
               None \<Rightarrow> None
             | Some r \<Rightarrow> if k \<in> set ks \<and> expectedEnd r < ts then after_finish ce now k r
                         else Some r))
     \<and> triggered s' = triggered s @ new
     \<and> finish_calls new =
         filter (\<lambda>k. expectedEnd (the (fmlookup (currentCooldowns s) k)) < ts) ks"
  using assms
proof (induction ks arbitrary: s)
  case Nil
  show ?case
    by (simp add: finish_calls_def split: option.split)
next
  case (Cons k rest)
  from Cons.prems obtain r where r: "fmlookup (currentCooldowns s) k = Some r"
    by auto
  from Cons.prems have dist: "distinct rest" and notin: "k \<notin> set rest"
    by simp_all
  show ?case
  proof (cases "expectedEnd r < ts")
    case False
    from Cons.prems have "\<forall>j\<in>set rest. fmlookup (currentCooldowns s) j \<noteq> None"
      by simp
    from Cons.IH [OF dist this] obtain s' new where
      f: "forEach_spellId ce now ts rest s = Returns () s'"
      and l: "\<forall>j. fmlookup (currentCooldowns s') j =
            (case fmlookup (currentCooldowns s) j of
               None \<Rightarrow> None
             | Some r \<Rightarrow> if j \<in> set rest \<and> expectedEnd r < ts then after_finish ce now j r
                         else Some r)"
      and t: "triggered s' = triggered s @ new"
      and c: "finish_calls new =
         filter (\<lambda>k. expectedEnd (the (fmlookup (currentCooldowns s) k)) < ts) rest"
      by blast
    have "forEach_spellId ce now ts (k # rest) s = Returns () s'"
      using r False f by simp
    moreover have "\<forall>j. fmlookup (currentCooldowns s') j =
            (case fmlookup (currentCooldowns s) j of
               None \<Rightarrow> None
             | Some r \<Rightarrow> if j \<in> set (k # rest) \<and> expectedEnd r < ts then after_finish ce now j r
                         else Some r)"
      using l r False by (auto split: option.split)
    moreover have "finish_calls new =
         filter (\<lambda>k. expectedEnd (the (fmlookup (currentCooldowns s) k)) < ts) (k # rest)"
      using c r False by simp
    ultimately show ?thesis
      using t by blast
  next
    case True
    from finishCooldown_one_charge [OF r, of ce now] obtain s1 new1 where
      f1: "finishCooldown ce now s k False = Returns () s1"
      and l1: "fmlookup (currentCooldowns s1) k = after_finish ce now k r"
      and o1: "\<forall>j. j \<noteq> k \<longrightarrow> fmlookup (currentCooldowns s1) j = fmlookup (currentCooldowns s) j"
      and t1: "triggered s1 = triggered s @ new1"
      and c1: "finish_calls new1 = [k]"
      by blast
    from Cons.prems notin o1 have "\<forall>j\<in>set rest. fmlookup (currentCooldowns s1) j \<noteq> None"
      by auto
    from Cons.IH [OF dist this] obtain s' new where
      f: "forEach_spellId ce now ts rest s1 = Returns () s'"
      and l: "\<forall>j. fmlookup (currentCooldowns s') j =
            (case fmlookup (currentCooldowns s1) j of
               None \<Rightarrow> None
             | Some r \<Rightarrow> if j \<in> set rest \<and> expectedEnd r < ts then after_finish ce now j r
                         else Some r)"
      and t: "triggered s' = triggered s1 @ new"
      and c: "finish_calls new =
         filter (\<lambda>k. expectedEnd (the (fmlookup (currentCooldowns s1) k)) < ts) rest"
      by blast
    have "forEach_spellId ce now ts (k # rest) s = Returns () s'"
      using r True f1 f by simp
    moreover have "\<forall>j. fmlookup (currentCooldowns s') j =
            (case fmlookup (currentCooldowns s) j of
               None \<Rightarrow> None
             | Some r \<Rightarrow> if j \<in> set (k # rest) \<and> expectedEnd r < ts then after_finish ce now j r
                         else Some r)"
    proof
      fix j
      show "fmlookup (currentCooldowns s') j =
            (case fmlookup (currentCooldowns s) j of
               None \<Rightarrow> None
             | Some r \<Rightarrow> if j \<in> set (k # rest) \<and> expectedEnd r < ts then after_finish ce now j r
                         else Some r)"
      proof (cases "j = k")
        case True
        with l l1 notin r \<open>expectedEnd r < ts\<close> show ?thesis
          by (simp split: option.split)
      next
        case False
        with l o1 show ?thesis
          by (simp split: option.split)
      qed
    qed
    moreover have "triggered s' = triggered s @ (new1 @ new)"
      using t t1 by simp
    moreover have "filter (\<lambda>j. expectedEnd (the (fmlookup (currentCooldowns s1) j)) < ts) rest
        = filter (\<lambda>j. expectedEnd (the (fmlookup (currentCooldowns s) j)) < ts) rest"
      using o1 notin by (intro filter_cong) auto
    then have "finish_calls (new1 @ new) =
         filter (\<lambda>k. expectedEnd (the (fmlookup (currentCooldowns s) k)) < ts) (k # rest)"
      using c c1 r True by simp
    ultimately show ?thesis
      by blast
  qed
qed

text \<open>
  Claim C3. \<open>on_event\<close> with an event returns normally. A record whose \<open>expectedEnd\<close>
  is less than the event's timestamp is replaced by what \<open>finishCooldown\<close> makes of it;
  every other record, in particular one whose \<open>expectedEnd\<close> equals the timestamp, is
  unchanged. The spells for which \<^verbatim>\<open>finishcooldown\<close> is triggered during the call are
  exactly the tracked spells with \<open>expectedEnd\<close> less than the timestamp, once each, in
  the order of the keys.
\<close>

theorem on_event_sweep:
  "\<exists>s'. on_event ce now s (Some ev) = Returns () s'
     \<and> (\<forall>spell. fmlookup (currentCooldowns s') spell =
           (case fmlookup (currentCooldowns s) spell of
              None \<Rightarrow> None
            | Some r \<Rightarrow>
                if expectedEnd r < timestamp ev
                then fmlookup (currentCooldowns (state_of (finishCooldown ce now s spell False))) spell
                else Some r))
     \<and> finish_calls (drop (length (triggered s)) (triggered s')) =
         filter (\<lambda>spell. expectedEnd (the (fmlookup (currentCooldowns s) spell)) < timestamp ev)
           (sorted_list_of_fset (fmdom (currentCooldowns s)))"
proof -
  let ?ks = "sorted_list_of_fset (fmdom (currentCooldowns s))"
  have d: "distinct ?ks"
    by (simp add: sorted_list_of_fset.rep_eq)
  have m: "\<forall>k\<in>set ?ks. fmlookup (currentCooldowns s) k \<noteq> None"
    by (simp add: fmlookup_dom_iff)
  from forEach_spellId_sweep [OF d m, of ce now "timestamp ev"] obtain s' new where
    f: "forEach_spellId ce now (timestamp ev) ?ks s = Returns () s'"
    and l: "\<forall>k. fmlookup (currentCooldowns s') k =
            (case fmlookup (currentCooldowns s) k of
               None \<Rightarrow> None
             | Some r \<Rightarrow> if k \<in> set ?ks \<and> expectedEnd r < timestamp ev then after_finish ce now k r
                         else Some r)"
    and t: "triggered s' = triggered s @ new"
    and c: "finish_calls new =
         filter (\<lambda>k. expectedEnd (the (fmlookup (currentCooldowns s) k)) < timestamp ev) ?ks"
    by blast
  have "on_event ce now s (Some ev) = Returns () s'"
    using f by (simp add: on_event_def)
  moreover have "\<forall>spell. fmlookup (currentCooldowns s') spell =
           (case fmlookup (currentCooldowns s) spell of
              None \<Rightarrow> None
            | Some r \<Rightarrow>
                if expectedEnd r < timestamp ev
                then fmlookup (currentCooldowns (state_of (finishCooldown ce now s spell False))) spell
                else Some r)"
    using l by (auto simp: finishCooldown_lookup_same fmlookup_dom_iff split: option.split)
  moreover have "finish_calls (drop (length (triggered s)) (triggered s')) =
         filter (\<lambda>spell. expectedEnd (the (fmlookup (currentCooldowns s) spell)) < timestamp ev) ?ks"
    using t c by simp
  ultimately show ?thesis
    by blast
qed

text \<open>
  An event at 1000 with two tracked spells: spell 3 ends at 1000 and stays on
  cooldown, spell 7 ended at 999 (so the event is at its \<open>expectedEnd + 1\<close>) and is
  finished.
\<close>

theorem on_event_sweep_witness:
  "\<exists>s'. on_event \<lparr>getMaxCharges = (\<lambda>_. 1), getExpectedCooldownDuration = (\<lambda>_. Some 1000)\<rparr> 1000
          \<lparr>currentCooldowns =
             fmupd 3 \<lparr>start = 0, expectedEnd = 1000, charges = 1\<rparr>
               (fmupd 7 \<lparr>start = 0, expectedEnd = 999, charges = 1\<rparr> fmempty),
           triggered = [], console = []\<rparr>
          (Some \<lparr>timestamp = 1000, ability = None\<rparr>) = Returns () s'
     \<and> fmlookup (currentCooldowns s') 3 = Some \<lparr>start = 0, expectedEnd = 1000, charges = 1\<rparr>
     \<and> fmlookup (currentCooldowns s') 7 = None
     \<and> finish_calls (triggered s') = [7]"
proof -
  let ?ce = "\<lparr>getMaxCharges = (\<lambda>_. 1), getExpectedCooldownDuration = (\<lambda>_. Some 1000)\<rparr>"
  let ?s = "\<lparr>currentCooldowns =
             fmupd 3 \<lparr>start = 0, expectedEnd = 1000, charges = 1\<rparr>
               (fmupd 7 \<lparr>start = 0, expectedEnd = 999, charges = 1\<rparr> fmempty),
           triggered = [], console = []\<rparr>"
  have k: "sorted_list_of_fset (fmdom (currentCooldowns ?s)) = [3, 7]"
    by (simp add: sorted_list_of_fset.rep_eq)
  from on_event_sweep [of ?ce 1000 ?s "\<lparr>timestamp = 1000, ability = None\<rparr>"]
  obtain s' where
    e: "on_event ?ce 1000 ?s (Some \<lparr>timestamp = 1000, ability = None\<rparr>) = Returns () s'"
    and l: "\<forall>spell. fmlookup (currentCooldowns s') spell =
           (case fmlookup (currentCooldowns ?s) spell of
              None \<Rightarrow> None
            | Some r \<Rightarrow>
                if expectedEnd r < timestamp \<lparr>timestamp = 1000, ability = None\<rparr>
                then fmlookup (currentCooldowns (state_of (finishCooldown ?ce 1000 ?s spell False))) spell
                else Some r)"
    and c: "finish_calls (drop (length (triggered ?s)) (triggered s')) =
         filter (\<lambda>spell. expectedEnd (the (fmlookup (currentCooldowns ?s) spell))
                    < timestamp \<lparr>timestamp = 1000, ability = None\<rparr>)
           (sorted_list_of_fset (fmdom (currentCooldowns ?s)))"
    by blast
  from l [rule_format, of 3]
  have "fmlookup (currentCooldowns s') 3 = Some \<lparr>start = 0, expectedEnd = 1000, charges = 1\<rparr>"
    by simp
  moreover from l [rule_format, of 7] have "fmlookup (currentCooldowns s') 7 = None"
    by (simp add: finishCooldown_def isOnCooldown_def triggerEvent_def console_write_def)
  moreover from c have "finish_calls (triggered s') = [7]"
    unfolding k by simp
  ultimately show ?thesis
    using e by blast
qed

section \<open>The store invariant\<close>

lemma store_invariant_side [simp]:
  "store_invariant ce (triggerEvent n k s) = store_invariant ce s"
  "store_invariant ce (console_write l s) = store_invariant ce s"
  by (simp_all add: store_invariant_def)

lemma store_invariant_lookup:
  "store_invariant ce s \<Longrightarrow> fmlookup (currentCooldowns s) spell = Some r
   \<Longrightarrow> 1 \<le> charges r \<and> charges r \<le> getMaxCharges ce spell"
  by (auto simp: store_invariant_def)

lemma store_invariant_upd:
  "store_invariant ce s \<Longrightarrow> 1 \<le> charges r \<Longrightarrow> charges r \<le> getMaxCharges ce spell
   \<Longrightarrow> store_invariant ce (s\<lparr>currentCooldowns := fmupd spell r (currentCooldowns s)\<rparr>)"
  by (auto simp: store_invariant_def)

lemma store_invariant_drop:
  "store_invariant ce s
   \<Longrightarrow> store_invariant ce (s\<lparr>currentCooldowns := fmdrop spell (currentCooldowns s)\<rparr>)"
  by (auto simp: store_invariant_def)

lemma refreshCooldown_invariant:
  assumes "store_invariant ce s"
  shows "store_invariant ce (state_of (refreshCooldown ce now s spell ov))"
proof (cases "fmlookup (currentCooldowns s) spell")
  case None
  with assms show ?thesis
    by (simp add: refreshCooldown_def isOnCooldown_def)
next
  case (Some r)
  from store_invariant_lookup [OF assms Some] assms show ?thesis
    by (simp add: refreshCooldown_on_cooldown [OF Some] store_invariant_upd)
qed

lemma finishCooldown_invariant:
  assumes "store_invariant ce s"
  shows "store_invariant ce (state_of (finishCooldown ce now s spell b))"
proof (cases "fmlookup (currentCooldowns s) spell")
  case None
  with assms show ?thesis
    by (simp add: finishCooldown_def isOnCooldown_def)
next
  case (Some r)
  from store_invariant_lookup [OF assms Some]
  have b: "1 \<le> charges r" "charges r \<le> getMaxCharges ce spell"
    by simp_all
  show ?thesis
  proof (cases "charges r = 1 \<or> b")
    case True
    with assms show ?thesis
      by (simp add: finishCooldown_on_cooldown [OF Some] store_invariant_drop)
  next
    case False
    with b have "store_invariant ce
        (s\<lparr>currentCooldowns := fmupd spell (r\<lparr>charges := charges r - 1\<rparr>) (currentCooldowns s)\<rparr>)"
      by (intro store_invariant_upd [OF assms]) simp_all
    from refreshCooldown_invariant [OF this] False show ?thesis
      by (simp add: finishCooldown_on_cooldown [OF Some])
  qed
qed

lemma startCooldown_invariant:
  "(\<forall>k. 1 \<le> getMaxCharges ce k) \<Longrightarrow> store_invariant ce s
   \<Longrightarrow> store_invariant ce (state_of (startCooldown ce now s spell ov))"
proof (induction ce now s spell ov rule: startCooldown.induct)
  case (1 ce now s spell ov)
  note inv = \<open>store_invariant ce s\<close> and M = \<open>\<forall>k. 1 \<le> getMaxCharges ce k\<close>
  show ?case
  proof (cases "truthy (js_or ov (getExpectedCooldownDuration ce spell))")
    case False
    with inv show ?thesis
      by (subst startCooldown.simps) simp
  next
    case d: True
    show ?thesis
    proof (cases "fmlookup (currentCooldowns s) spell")
      case None
      from M have "1 \<le> getMaxCharges ce spell" by simp
      with inv show ?thesis
        by (simp add: startCooldown_first [OF d None] store_invariant_upd)
    next
      case (Some r)
      from store_invariant_lookup [OF inv Some]
      have b: "1 \<le> charges r" "charges r \<le> getMaxCharges ce spell"
        by simp_all
      show ?thesis
      proof (cases "charges r < getMaxCharges ce spell")
        case True
        with inv b show ?thesis
          by (simp add: startCooldown_charge [OF d Some True] store_invariant_upd)
      next
        case False
        with Some have na: "\<not> isAvailable ce s spell"
          by (simp add: isAvailable_def isOnCooldown_def)
        let ?s = "console_write
                    (Error_cast_while_on_cooldown spell (now - start r)
                       (cooldownRemaining now s spell) (expectedEnd r - start r)) s"
        have cr: "cooldownRemaining now s spell = Some (expectedEnd r - now)"
          using Some by (simp add: cooldownRemaining_def isOnCooldown_def)
        from Some have r': "fmlookup (currentCooldowns ?s) spell = Some r" by simp
        have f: "finishCooldown ce now ?s spell False =
                   Returns () (state_of (finishCooldown ce now ?s spell False))"
          by (simp add: finishCooldown_on_cooldown [OF r'])
        from inv have "store_invariant ce ?s" by simp
        from finishCooldown_invariant [OF this]
        have i1: "store_invariant ce (state_of (finishCooldown ce now ?s spell False))" .
        from Some have oc: "isOnCooldown s spell"
          by (simp add: isOnCooldown_def)
        have "store_invariant ce
                (state_of (startCooldown ce now
                   (state_of (finishCooldown ce now ?s spell False)) spell ov))"
          using "1.IH" [OF refl _ _ na refl _ M,
              of "()" "state_of (finishCooldown ce now ?s spell False)"] d oc f i1 Some
          by simp
        then show ?thesis
          by (simp add: startCooldown_saturated [OF d Some na] cr)
      qed
    qed
  qed
qed

lemma reduceCooldown_invariant:
  assumes "store_invariant ce s"
  shows "store_invariant ce (state_of (reduceCooldown ce now s spell d))"
proof (cases "fmlookup (currentCooldowns s) spell")
  case None
  with assms show ?thesis
    by (simp add: reduceCooldown_def)
next
  case (Some r)
  from finishCooldown_invariant [OF assms, of now spell False]
    store_invariant_lookup [OF assms Some] assms Some
  show ?thesis
    by (simp add: reduceCooldown_def Let_def finishCooldown_on_cooldown [OF Some]
        store_invariant_upd)
qed

lemma forEach_spellId_invariant:
  "store_invariant ce s \<Longrightarrow> store_invariant ce (state_of (forEach_spellId ce now ts ks s))"
proof (induction ks arbitrary: s)
  case Nil
  then show ?case by simp
next
  case (Cons k rest)
  show ?case
  proof (cases "fmlookup (currentCooldowns s) k")
    case None
    with Cons.prems show ?thesis by simp
  next
    case (Some r)
    from finishCooldown_invariant [OF Cons.prems, of now k False]
    have "store_invariant ce (state_of (finishCooldown ce now s k False))" .
    from Cons.IH [OF this] Cons.IH [OF Cons.prems] Some show ?thesis
      by (simp add: finishCooldown_on_cooldown [OF Some])
  qed
qed

lemma perform_invariant:
  assumes "\<forall>k. 1 \<le> getMaxCharges ce k" and "store_invariant ce s"
  shows "store_invariant ce (perform ce s step)"
proof (cases step)
  case (Pair now op)
  show ?thesis
  proof (cases op)
    case (StartCooldown spell ov)
    with Pair startCooldown_invariant [OF assms] show ?thesis by simp
  next
    case (FinishCooldown spell b)
    with Pair finishCooldown_invariant [OF assms(2)] show ?thesis by simp
  next
    case (RefreshCooldown spell ov)
    with Pair refreshCooldown_invariant [OF assms(2)] show ?thesis by simp
  next
    case (ReduceCooldown spell d)
    with Pair reduceCooldown_invariant [OF assms(2)] show ?thesis by simp
  next
    case (On_byPlayer_cast ev)
    with Pair startCooldown_invariant [OF assms] assms(2) show ?thesis
      by (simp add: on_byPlayer_cast_def split: option.split)
  next
    case (On_event ev)
    with Pair forEach_spellId_invariant [OF assms(2)] assms(2) show ?thesis
      by (simp add: on_event_def split: option.split)
  qed
qed

lemma run_invariant:
  assumes "\<forall>k. 1 \<le> getMaxCharges ce k"
  shows "store_invariant ce s \<Longrightarrow> store_invariant ce (run ce s ops)"
  unfolding run_def
  by (induction ops arbitrary: s) (simp_all add: perform_invariant [OF assms])

text \<open>A spell without a record gets one only from \<open>startCooldown\<close> on that spell.\<close>

lemma refreshCooldown_absent:
  assumes "fmlookup (currentCooldowns s) A = None"
  shows "fmlookup (currentCooldowns (state_of (refreshCooldown ce now s spell ov))) A = None"
proof (cases "fmlookup (currentCooldowns s) spell")
  case None
  with assms show ?thesis
    by (simp add: refreshCooldown_def isOnCooldown_def)
next
  case (Some r)
  with assms have "spell \<noteq> A" by auto
  with assms show ?thesis
    by (simp add: refreshCooldown_on_cooldown [OF Some])
qed

lemma finishCooldown_absent:
  assumes "fmlookup (currentCooldowns s) A = None"
  shows "fmlookup (currentCooldowns (state_of (finishCooldown ce now s spell b))) A = None"
proof (cases "fmlookup (currentCooldowns s) spell")
  case None
  with assms show ?thesis
    by (simp add: finishCooldown_def isOnCooldown_def)
next
  case (Some r)
  with assms have ne: "spell \<noteq> A" by auto
  let ?s = "s\<lparr>currentCooldowns := fmupd spell (r\<lparr>charges := charges r - 1\<rparr>) (currentCooldowns s)\<rparr>"
  from ne assms have "fmlookup (currentCooldowns ?s) A = None" by simp
  from refreshCooldown_absent [OF this, of ce now spell None] ne assms show ?thesis
    by (simp add: finishCooldown_on_cooldown [OF Some])
qed

lemma startCooldown_absent:
  "spell \<noteq> A \<Longrightarrow> fmlookup (currentCooldowns s) A = None
   \<Longrightarrow> fmlookup (currentCooldowns (state_of (startCooldown ce now s spell ov))) A = None"
proof (induction ce now s spell ov rule: startCooldown.induct)
  case (1 ce now s spell ov)
  note ne = \<open>spell \<noteq> A\<close> and ab = \<open>fmlookup (currentCooldowns s) A = None\<close>
  show ?case
  proof (cases "truthy (js_or ov (getExpectedCooldownDuration ce spell))")
    case False
    with ab show ?thesis
      by (subst startCooldown.simps) simp
  next
    case d: True
    show ?thesis
    proof (cases "fmlookup (currentCooldowns s) spell")
      case None
      with ab ne show ?thesis
        by (simp add: startCooldown_first [OF d None])
    next
      case (Some r)
      show ?thesis
      proof (cases "charges r < getMaxCharges ce spell")
        case True
        with ab ne show ?thesis
          by (simp add: startCooldown_charge [OF d Some True])
      next
        case False
        with Some have na: "\<not> isAvailable ce s spell"
          by (simp add: isAvailable_def isOnCooldown_def)
        let ?s = "console_write
                    (Error_cast_while_on_cooldown spell (now - start r)
                       (cooldownRemaining now s spell) (expectedEnd r - start r)) s"
        have cr: "cooldownRemaining now s spell = Some (expectedEnd r - now)"
          using Some by (simp add: cooldownRemaining_def isOnCooldown_def)
        from Some have r': "fmlookup (currentCooldowns ?s) spell = Some r" by simp
        have f: "finishCooldown ce now ?s spell False =
                   Returns () (state_of (finishCooldown ce now ?s spell False))"
          by (simp add: finishCooldown_on_cooldown [OF r'])
        from ab have "fmlookup (currentCooldowns ?s) A = None" by simp
        from finishCooldown_absent [OF this]
        have i1: "fmlookup (currentCooldowns (state_of (finishCooldown ce now ?s spell False))) A
                  = None" .
        from Some have oc: "isOnCooldown s spell"
          by (simp add: isOnCooldown_def)
        have "fmlookup (currentCooldowns
                (state_of (startCooldown ce now
                   (state_of (finishCooldown ce now ?s spell False)) spell ov))) A = None"
          using "1.IH" [OF refl _ _ na refl _ ne,
              of "()" "state_of (finishCooldown ce now ?s spell False)"] d oc f i1 Some
          by simp
        then show ?thesis
          by (simp add: startCooldown_saturated [OF d Some na] cr)
      qed
    qed
  qed
qed

lemma reduceCooldown_absent:
  assumes "fmlookup (currentCooldowns s) A = None"
  shows "fmlookup (currentCooldowns (state_of (reduceCooldown ce now s spell d))) A = None"
proof (cases "fmlookup (currentCooldowns s) spell")
  case None
  with assms show ?thesis
    by (simp add: reduceCooldown_def)
next
  case (Some r)
  with assms have "spell \<noteq> A" by auto
  with finishCooldown_absent [OF assms, of ce now spell False] assms Some
  show ?thesis
    by (simp add: reduceCooldown_def Let_def finishCooldown_on_cooldown [OF Some])
qed

lemma forEach_spellId_absent:
  "fmlookup (currentCooldowns s) A = None
   \<Longrightarrow> fmlookup (currentCooldowns (state_of (forEach_spellId ce now ts ks s))) A = None"
proof (induction ks arbitrary: s)
  case Nil
  then show ?case by simp
next
  case (Cons k rest)
  show ?case
  proof (cases "fmlookup (currentCooldowns s) k")
    case None
    with Cons.prems show ?thesis by simp
  next
    case (Some r)
    from finishCooldown_absent [OF Cons.prems, of ce now k False]
    have "fmlookup (currentCooldowns (state_of (finishCooldown ce now s k False))) A = None" .
    from Cons.IH [OF this] Cons.IH [OF Cons.prems] Some show ?thesis
      by (simp add: finishCooldown_on_cooldown [OF Some])
  qed
qed

lemma perform_absent:
  assumes "started_spell (snd step) \<noteq> Some A" and "fmlookup (currentCooldowns s) A = None"
  shows "fmlookup (currentCooldowns (perform ce s step)) A = None"
proof (cases step)
  case (Pair now op)
  show ?thesis
  proof (cases op)
    case (StartCooldown spell ov)
    with Pair assms startCooldown_absent [of spell A s] show ?thesis by simp
  next
    case (FinishCooldown spell b)
    with Pair finishCooldown_absent [OF assms(2)] show ?thesis by simp
  next
    case (RefreshCooldown spell ov)
    with Pair refreshCooldown_absent [OF assms(2)] show ?thesis by simp
  next
    case (ReduceCooldown spell d)
    with Pair reduceCooldown_absent [OF assms(2)] show ?thesis by simp
  next
    case (On_byPlayer_cast ev)
    with Pair assms show ?thesis
      by (auto simp: on_byPlayer_cast_def startCooldown_absent split: option.split)
  next
    case (On_event ev)
    with Pair forEach_spellId_absent [OF assms(2)] assms(2) show ?thesis
      by (simp add: on_event_def split: option.split)
  qed
qed

lemma run_absent:
  "\<forall>step\<in>set ops. started_spell (snd step) \<noteq> Some A
   \<Longrightarrow> fmlookup (currentCooldowns s) A = None
   \<Longrightarrow> fmlookup (currentCooldowns (run ce s ops)) A = None"
  unfolding run_def
  by (induction ops arbitrary: s) (simp_all add: perform_absent)

text \<open>
  Claim C9. Let every configured maximum be at least one charge (the glossary: an
  ability has 1..N charges). The empty store satisfies the invariant that every record
  has at least one and at most the configured maximum of charges; every operation
  preserves it, whether it returns or throws; so it holds after every prefix of every
  sequence of operations on a fresh module. And a spell that no operation of the
  sequence passes to \<open>startCooldown\<close> (directly or as the spell of a cast) is, after
  every prefix, not on cooldown, with \<open>cooldownRemaining\<close> \<^verbatim>\<open>null\<close>.
\<close>

theorem store_invariant_preserved:
  assumes "\<forall>spell. 1 \<le> getMaxCharges ce spell"
  shows "store_invariant ce initial
     \<and> (store_invariant ce s \<longrightarrow> store_invariant ce (perform ce s step))
     \<and> (\<forall>n. store_invariant ce (run ce initial (take n ops)))
     \<and> ((\<forall>step\<in>set ops. started_spell (snd step) \<noteq> Some spell) \<longrightarrow>
          (\<forall>n now. \<not> isOnCooldown (run ce initial (take n ops)) spell
                  \<and> cooldownRemaining now (run ce initial (take n ops)) spell = None))"
proof (intro conjI impI allI)
  show i: "store_invariant ce initial"
    by (simp add: store_invariant_def initial_def)
  show "store_invariant ce (run ce initial (take n ops))" for n
    by (rule run_invariant [OF assms i])
  show "store_invariant ce (perform ce s step)" if "store_invariant ce s"
    by (rule perform_invariant [OF assms that])
next
  fix n now
  assume a: "\<forall>step\<in>set ops. started_spell (snd step) \<noteq> Some spell"
  have "\<forall>step\<in>set (take n ops). started_spell (snd step) \<noteq> Some spell"
    using a by (meson in_set_takeD)
  moreover have "fmlookup (currentCooldowns initial) spell = None"
    by (simp add: initial_def)
  ultimately have l: "fmlookup (currentCooldowns (run ce initial (take n ops))) spell = None"
    by (rule run_absent)
  then show "\<not> isOnCooldown (run ce initial (take n ops)) spell"
    by (simp add: isOnCooldown_def)
  from l show "cooldownRemaining now (run ce initial (take n ops)) spell = None"
    by (simp add: cooldownRemaining_def isOnCooldown_def)
qed

text \<open>
  The scenario of the specification: spell 7 with two charges and duration 1000, cast
  at 0 and at 100, then an event at 1001. Spell 9 is never cast.
\<close>

theorem store_invariant_preserved_witness:
  "(\<forall>spell. 1 \<le> getMaxCharges
       \<lparr>getMaxCharges = (\<lambda>_. 2), getExpectedCooldownDuration = (\<lambda>_. Some 1000)\<rparr> spell)
   \<and> store_invariant \<lparr>getMaxCharges = (\<lambda>_. 2), getExpectedCooldownDuration = (\<lambda>_. Some 1000)\<rparr>
       (run \<lparr>getMaxCharges = (\<lambda>_. 2), getExpectedCooldownDuration = (\<lambda>_. Some 1000)\<rparr> initial
          [(0, On_byPlayer_cast \<lparr>timestamp = 0, ability = Some \<lparr>guid = 7\<rparr>\<rparr>),
           (100, StartCooldown 7 None),
           (1001, On_event (Some \<lparr>timestamp = 1001, ability = None\<rparr>))])
   \<and> \<not> isOnCooldown
       (run \<lparr>getMaxCharges = (\<lambda>_. 2), getExpectedCooldownDuration = (\<lambda>_. Some 1000)\<rparr> initial
          [(0, On_byPlayer_cast \<lparr>timestamp = 0, ability = Some \<lparr>guid = 7\<rparr>\<rparr>),
           (100, StartCooldown 7 None),
           (1001, On_event (Some \<lparr>timestamp = 1001, ability = None\<rparr>))]) 9
   \<and> cooldownRemaining 1001
       (run \<lparr>getMaxCharges = (\<lambda>_. 2), getExpectedCooldownDuration = (\<lambda>_. Some 1000)\<rparr> initial
          [(0, On_byPlayer_cast \<lparr>timestamp = 0, ability = Some \<lparr>guid = 7\<rparr>\<rparr>),
           (100, StartCooldown 7 None),
           (1001, On_event (Some \<lparr>timestamp = 1001, ability = None\<rparr>))]) 9 = None
   \<and> fmlookup (currentCooldowns
       (run \<lparr>getMaxCharges = (\<lambda>_. 2), getExpectedCooldownDuration = (\<lambda>_. Some 1000)\<rparr> initial
          [(0, On_byPlayer_cast \<lparr>timestamp = 0, ability = Some \<lparr>guid = 7\<rparr>\<rparr>),
           (100, StartCooldown 7 None),
           (1001, On_event (Some \<lparr>timestamp = 1001, ability = None\<rparr>))])) 7
     = Some \<lparr>start = 0, expectedEnd = 2001, charges = 1\<rparr>"
proof -
  let ?ce = "\<lparr>getMaxCharges = (\<lambda>_. 2), getExpectedCooldownDuration = (\<lambda>_. Some 1000)\<rparr>"
  let ?ops = "[(0, On_byPlayer_cast \<lparr>timestamp = 0, ability = Some \<lparr>guid = 7\<rparr>\<rparr>),
           (100, StartCooldown 7 None),
           (1001, On_event (Some \<lparr>timestamp = 1001, ability = None\<rparr>))]"
  have h: "\<forall>spell. 1 \<le> getMaxCharges ?ce spell"
    by simp
  have n: "\<forall>step\<in>set ?ops. started_spell (snd step) \<noteq> Some 9"
    by simp
  have t: "take 3 ?ops = ?ops"
    by simp
  have v: "fmlookup (currentCooldowns (run ?ce initial ?ops)) 7
     = Some \<lparr>start = 0, expectedEnd = 2001, charges = 1\<rparr>"
    by (simp add: run_def initial_def on_byPlayer_cast_def on_event_def startCooldown.simps
        finishCooldown_def refreshCooldown_def isOnCooldown_def isAvailable_def
        triggerEvent_def console_write_def js_or_def truthy_def sorted_list_of_fset.rep_eq)
  from store_invariant_preserved [OF h, of initial "(0, StartCooldown 7 None)" ?ops 9]
  have "store_invariant ?ce (run ?ce initial (take 3 ?ops))
      \<and> \<not> isOnCooldown (run ?ce initial (take 3 ?ops)) 9
      \<and> cooldownRemaining 1001 (run ?ce initial (take 3 ?ops)) 9 = None"
    using n by blast
  with h v show ?thesis
    unfolding t by blast
qed

end
